theory Spec2Isabelle
  imports Main
begin

section \<open>Python strings\<close>

text \<open>
  A Python \<open>str\<close> is modelled as a \<^typ>\<open>string\<close>; a \<^typ>\<open>char\<close> stands for a code
  point below 256. The patterns the program searches for and replaces are ASCII, so the
  same definitions are also exact on the UTF-8 bytes of any text.
\<close>

text \<open>\<open>s.startswith(p)\<close>\<close>

fun startswith :: "string \<Rightarrow> string \<Rightarrow> bool" where
  "startswith s [] = True"
| "startswith [] (p # ps) = False"
| "startswith (c # cs) (p # ps) = (c = p \<and> startswith cs ps)"

text \<open>\<open>sub in s\<close> for two strings\<close>

fun str_contains :: "string \<Rightarrow> string \<Rightarrow> bool" where
  "str_contains [] sub = (sub = [])"
| "str_contains (c # cs) sub = (startswith (c # cs) sub \<or> str_contains cs sub)"

text \<open>
  \<open>s.replace(old, new)\<close>: every occurrence of \<open>old\<close>, found from the left without
  overlap, in one pass. With an empty \<open>old\<close> Python puts \<open>new\<close> before every character
  and at the end.
\<close>

fun str_replace :: "string \<Rightarrow> string \<Rightarrow> string \<Rightarrow> string" where
  "str_replace [] old new = (if old = [] then new else [])"
| "str_replace (c # cs) old new =
     (if old = [] then new @ c # str_replace cs old new
      else if startswith (c # cs) old
        then new @ str_replace (drop (length old) (c # cs)) old new
      else c # str_replace cs old new)"

text \<open>
  \<open>str.isspace\<close> on one character: the code points below 256 that Python strips
  (tab, line feed, vertical tab, form feed, carriage return, the separators 28 to 31,
  space, next line 133 and no-break space 160).
\<close>

definition is_space :: "char \<Rightarrow> bool" where
  "is_space c = (of_char c \<in> {9, 10, 11, 12, 13, 28, 29, 30, 31, 32, 133, 160 :: nat})"

text \<open>\<open>s.strip()\<close>\<close>

definition strip :: "string \<Rightarrow> string" where
  "strip s = rev (dropWhile is_space (rev (dropWhile is_space s)))"

text \<open>\<open>str(n)\<close> for an integer\<close>

definition digit_char :: "nat \<Rightarrow> char" where
  "digit_char d = char_of (48 + d)"

fun str_nat :: "nat \<Rightarrow> string" where
  "str_nat n = (if n < 10 then [digit_char n] else str_nat (n div 10) @ [digit_char (n mod 10)])"

declare str_nat.simps [simp del]

definition str_int :: "int \<Rightarrow> string" where
  "str_int i = (if i < 0 then CHR ''-'' # str_nat (nat (- i)) else str_nat (nat i))"

text \<open>\<open>sep.join(xs)\<close>\<close>

fun join :: "string \<Rightarrow> string list \<Rightarrow> string" where
  "join sep [] = []"
| "join sep [x] = x"
| "join sep (x # y # ys) = x @ sep @ join sep (y # ys)"

text \<open>
  \<open>repr(s)\<close> of a string: single quotes unless the string holds a single quote and no
  double quote; the backslash, the chosen quote, tab, line feed and carriage return are
  escaped; the other code points Python calls non-printable (below 32, 127 to 160, 173)
  are written \<open>\xhh\<close>.
\<close>

definition hex_digit :: "nat \<Rightarrow> char" where
  "hex_digit d = (if d < 10 then char_of (48 + d) else char_of (87 + d))"

definition repr_char :: "char \<Rightarrow> char \<Rightarrow> string" where
  "repr_char q c =
     (let n = (of_char c :: nat) in
      if c = q \<or> c = CHR 0x5C then [CHR 0x5C, c]
      else if n = 9 then [CHR 0x5C, CHR ''t'']
      else if n = 10 then [CHR 0x5C, CHR ''n'']
      else if n = 13 then [CHR 0x5C, CHR ''r'']
      else if n < 32 \<or> (127 \<le> n \<and> n \<le> 160) \<or> n = 173
        then [CHR 0x5C, CHR ''x'', hex_digit (n div 16), hex_digit (n mod 16)]
      else [c])"

definition repr_str :: "string \<Rightarrow> string" where
  "repr_str s =
     (let q = (if CHR 0x27 \<in> set s \<and> CHR 0x22 \<notin> set s then CHR 0x22 else CHR 0x27)
      in q # concat (map (repr_char q) s) @ [q])"

section \<open>Paths\<close>

text \<open>
  A \<open>pathlib.Path\<close> is the list of its components below the file system's root.
  \<open>parent\<close> of the root is the root.
\<close>

type_synonym path = "string list"

definition parent :: "path \<Rightarrow> path" where
  "parent p = butlast p"

definition name :: "path \<Rightarrow> string" where
  "name p = (if p = [] then [] else last p)"

text \<open>
  \<open>Path.stem\<close>: the name up to its last dot, when that dot is neither the first nor
  the last character of the name.
\<close>

fun rfind_dot :: "string \<Rightarrow> nat option" where
  "rfind_dot [] = None"
| "rfind_dot (c # cs) =
     (case rfind_dot cs of
        Some i \<Rightarrow> Some (Suc i)
      | None \<Rightarrow> if c = CHR ''.'' then Some 0 else None)"

definition stem :: "path \<Rightarrow> string" where
  "stem p =
     (case rfind_dot (name p) of
        Some i \<Rightarrow> if 0 < i \<and> i < length (name p) - 1 then take i (name p) else name p
      | None \<Rightarrow> name p)"

text \<open>
  \<open>p / s\<close>: the components of \<open>s\<close> are appended; empty components and \<open>.\<close> vanish,
  and an absolute \<open>s\<close> replaces \<open>p\<close>. A component \<open>..\<close> is kept as pathlib keeps it.
\<close>

fun split_slash :: "string \<Rightarrow> string \<Rightarrow> string list" where
  "split_slash acc [] = [rev acc]"
| "split_slash acc (c # cs) =
     (if c = CHR ''/'' then rev acc # split_slash [] cs else split_slash (c # acc) cs)"

definition components :: "string \<Rightarrow> string list" where
  "components s = filter (\<lambda>c. c \<noteq> [] \<and> c \<noteq> ''.'') (split_slash [] s)"

definition joinpath :: "path \<Rightarrow> string \<Rightarrow> path" where
  "joinpath p s = (if startswith s ''/'' then components s else p @ components s)"

definition str_path :: "path \<Rightarrow> string" where
  "str_path p = CHR ''/'' # join ''/'' p"

section \<open>Exceptions and console output\<close>

text \<open>
  The exception classes the program can meet. \<open>ValueError\<close> stands for the decoding
  errors of \<open>json.load\<close> and of reading text (\<open>JSONDecodeError\<close> and
  \<open>UnicodeDecodeError\<close> are subclasses of it). \<open>KeyboardInterrupt\<close> is the only
  class here that is not a subclass of \<open>Exception\<close>, and \<open>FileNotFoundError\<close> is
  caught apart from the others in \<open>start_server\<close>.
\<close>

datatype exn = OSError | FileNotFoundError | ValueError | TypeError | AttributeError
  | UnboundLocalError | KeyboardInterrupt

definition is_Exception :: "exn \<Rightarrow> bool" where
  "is_Exception x = (x \<noteq> KeyboardInterrupt)"

text \<open>The text of an exception in a message is abstracted to the name of its class.\<close>

fun str_exn :: "exn \<Rightarrow> string" where
  "str_exn OSError = ''OSError''"
| "str_exn FileNotFoundError = ''FileNotFoundError''"
| "str_exn ValueError = ''ValueError''"
| "str_exn TypeError = ''TypeError''"
| "str_exn AttributeError = ''AttributeError''"
| "str_exn UnboundLocalError = ''UnboundLocalError''"
| "str_exn KeyboardInterrupt = ''KeyboardInterrupt''"

text \<open>
  \<open>log_info\<close>, \<open>log_success\<close>, \<open>log_warn\<close> and \<open>log_error\<close> print one line each; the
  model records the level and the message. The banners written with a bare \<open>print\<close>
  are not recorded.
\<close>

datatype level = INFO | SUCCESS | WARN | ERROR

section \<open>Configuration documents\<close>

text \<open>
  What \<open>json.load\<close> returns: \<open>None\<close>, a \<open>bool\<close>, an \<open>int\<close>, a \<open>float\<close> (kept as the
  text of its \<open>repr\<close>; the program never computes with one), a \<open>str\<close>, a \<open>list\<close> or a
  \<open>dict\<close> with string keys, in insertion order.
\<close>

datatype json = JNull | JBool bool | JInt int | JFloat string | JStr string
  | JArr "json list" | JObj "(string \<times> json) list"

type_synonym dict = "(string \<times> json) list"

text \<open>\<open>d.get(k)\<close>, \<open>d.pop(k, None)\<close> and \<open>d[k] = v\<close>\<close>

definition dict_get :: "dict \<Rightarrow> string \<Rightarrow> json option" where
  "dict_get d k = map_of d k"

definition dict_pop :: "dict \<Rightarrow> string \<Rightarrow> dict" where
  "dict_pop d k = filter (\<lambda>kv. fst kv \<noteq> k) d"

fun dict_set :: "dict \<Rightarrow> string \<Rightarrow> json \<Rightarrow> dict" where
  "dict_set [] k v = [(k, v)]"
| "dict_set (kv # d) k v = (if fst kv = k then (k, v) # d else kv # dict_set d k v)"

text \<open>\<open>repr(v)\<close> and \<open>str(v)\<close> of a loaded value\<close>

fun repr_json :: "json \<Rightarrow> string" where
  "repr_json JNull = ''None''"
| "repr_json (JBool b) = (if b then ''True'' else ''False'')"
| "repr_json (JInt i) = str_int i"
| "repr_json (JFloat r) = r"
| "repr_json (JStr s) = repr_str s"
| "repr_json (JArr xs) = ''['' @ join '', '' (map repr_json xs) @ '']''"
| "repr_json (JObj d) =
     ''{'' @ join '', '' (map (\<lambda>kv. repr_str (fst kv) @ '': '' @ repr_json (snd kv)) d) @ ''}''"

fun str_json :: "json \<Rightarrow> string" where
  "str_json (JStr s) = s"
| "str_json v = repr_json v"

text \<open>
  \<open>'{date:%Y}' in template\<close>: a substring test on a string, membership in a list, a key
  test on a dictionary, and a \<open>TypeError\<close> on anything else.
\<close>

fun placeholder_in :: "json \<Rightarrow> exn + bool" where
  "placeholder_in (JStr t) = Inr (str_contains t ''{date:%Y}'')"
| "placeholder_in (JArr xs) = Inr (JStr ''{date:%Y}'' \<in> set xs)"
| "placeholder_in (JObj d) = Inr (dict_get d ''{date:%Y}'' \<noteq> None)"
| "placeholder_in v = Inl TypeError"

section \<open>The world outside the program\<close>

text \<open>
  A file is known by what the program's two readers return on it: \<open>json.load\<close> (\<open>None\<close>
  when the text is not JSON) and the iteration over its text lines (\<open>None\<close> when the
  bytes are not UTF-8).
\<close>

datatype content = File (json_of: "json option") (lines_of: "string list option")

text \<open>
  The environment holds what the program cannot decide: which file operations the
  operating system refuses, and the outcome of each external call, numbered from 0 in
  the order the calls are made. \<open>root_dir\<close> is the directory of the script, \<open>cwd\<close>
  the working directory at the start and \<open>sys_executable\<close> the running interpreter.
\<close>

record env =
  root_dir :: path
  cwd :: path
  sys_executable :: path
  read_denied :: "path \<Rightarrow> bool"
  write_denied :: "path \<Rightarrow> bool"
  mkdir_denied :: "path \<Rightarrow> bool"
  json_dump_lines :: "json \<Rightarrow> string list"
  scan :: "nat \<Rightarrow> nat option"
  ping :: "nat \<Rightarrow> bool"
  spawn :: "nat \<Rightarrow> exn + nat"
  import_check :: "nat \<Rightarrow> exn + int"
  engine :: "nat \<Rightarrow> exn + int"

text \<open>
  The state holds what the program changes or uses up: the files, the number of
  external calls made so far, the engine's command lines so far (interpreter, config
  path, URL), the processes it asked to terminate, and the console.
\<close>

record state =
  files :: "path \<Rightarrow> content option"
  scans :: nat
  pings :: nat
  spawns :: nat
  import_checks :: nat
  engine_runs :: "(path \<times> path \<times> string) list"
  terminated :: "nat list"
  out :: "(level \<times> string) list"

definition log :: "level \<Rightarrow> string \<Rightarrow> state \<Rightarrow> state" where
  "log l m s = s\<lparr>out := out s @ [(l, m)]\<rparr>"

definition exists :: "state \<Rightarrow> path \<Rightarrow> bool" where
  "exists s p = (files s p \<noteq> None)"

text \<open>\<open>open(p, 'r')\<close> followed by \<open>json.load\<close>\<close>

definition load_json :: "env \<Rightarrow> path \<Rightarrow> state \<Rightarrow> exn + json" where
  "load_json e p s =
     (case files s p of
        None \<Rightarrow> Inl FileNotFoundError
      | Some f \<Rightarrow>
          if read_denied e p then Inl OSError
          else (case json_of f of None \<Rightarrow> Inl ValueError | Some v \<Rightarrow> Inr v))"

text \<open>
  \<open>open(p, 'w')\<close> followed by \<open>json.dump(v, f, indent=2)\<close>. A refused open leaves the
  file as it was; a write that breaks off half way is not modelled.
\<close>

definition dump_json :: "env \<Rightarrow> path \<Rightarrow> json \<Rightarrow> state \<Rightarrow> exn + state" where
  "dump_json e p v s =
     (if write_denied e p then Inl OSError
      else Inr (s\<lparr>files := (files s)(p \<mapsto> File (Some v) (Some (json_dump_lines e v)))\<rparr>))"

text \<open>\<open>shutil.copy2(src, dst)\<close>\<close>

definition copy2 :: "env \<Rightarrow> path \<Rightarrow> path \<Rightarrow> state \<Rightarrow> exn + state" where
  "copy2 e src dst s =
     (case files s src of
        None \<Rightarrow> Inl FileNotFoundError
      | Some f \<Rightarrow>
          if src = dst \<or> read_denied e src \<or> write_denied e dst then Inl OSError
          else Inr (s\<lparr>files := (files s)(dst \<mapsto> f)\<rparr>))"

section \<open>Config Repair\<close>

text \<open>\<open>backup_config\<close>, lines 203 to 213, with its two paths of lines 206 and 208\<close>

definition backup_dir :: "path \<Rightarrow> path" where
  "backup_dir config_path =
     joinpath (joinpath (parent (parent config_path)) ''backups'') ''configs''"

definition backup_path :: "path \<Rightarrow> path" where
  "backup_path config_path =
     joinpath (backup_dir config_path) (stem config_path @ ''_backup.json'')"

definition backup_config :: "env \<Rightarrow> path \<Rightarrow> state \<Rightarrow> path option \<times> state" where
  "backup_config e config_path s =
     (if mkdir_denied e (backup_dir config_path)
      then (None, log WARN (''Could not backup config: '' @ str_exn OSError) s)
      else
        (case copy2 e config_path (backup_path config_path) s of
           Inl x \<Rightarrow> (None, log WARN (''Could not backup config: '' @ str_exn x) s)
         | Inr s' \<Rightarrow> (Some (backup_path config_path), s')))"

text \<open>
  The condition of line 225:
  \<open>config.get('download_mode') == 'aria2c' or '{date:%Y}' in str(config.get('template_folder', ''))\<close>
\<close>

definition needs_backup :: "dict \<Rightarrow> bool" where
  "needs_backup config =
     (dict_get config ''download_mode'' = Some (JStr ''aria2c'') \<or>
      str_contains
        (str_json (case dict_get config ''template_folder'' of None \<Rightarrow> JStr [] | Some v \<Rightarrow> v))
        ''{date:%Y}'')"

text \<open>Lines 224 to 229: the backup before any change\<close>

definition backup_first :: "env \<Rightarrow> path \<Rightarrow> bool \<Rightarrow> dict \<Rightarrow> state \<Rightarrow> state" where
  "backup_first e config_path create_backup config s =
     (if create_backup \<and> needs_backup config
      then (case backup_config e config_path s of
              (Some backup, s') \<Rightarrow> log INFO (''Config backup created: '' @ name backup) s'
            | (None, s') \<Rightarrow> s')
      else s)"

text \<open>Fix 1, lines 232 to 235: the dictionary and the flag \<open>fixed\<close> after it\<close>

definition fix_download_mode :: "dict \<Rightarrow> dict \<times> bool" where
  "fix_download_mode config =
     (if dict_get config ''download_mode'' = Some (JStr ''aria2c'')
      then (dict_pop config ''download_mode'', True)
      else (config, False))"

text \<open>
  Fix 2, lines 238 to 246. \<open>template.replace\<close> on a list or a dictionary raises
  \<open>AttributeError\<close>.
\<close>

definition fix_template :: "dict \<Rightarrow> exn + dict \<times> bool" where
  "fix_template config =
     (case dict_get config ''template_folder'' of
        None \<Rightarrow> Inr (config, False)
      | Some template \<Rightarrow>
          (case placeholder_in template of
             Inl x \<Rightarrow> Inl x
           | Inr False \<Rightarrow> Inr (config, False)
           | Inr True \<Rightarrow>
               (case template of
                  JStr t \<Rightarrow>
                    let new_template =
                      str_replace (str_replace t '' [{date:%Y}]'' []) ''[{date:%Y}]'' []
                    in Inr (dict_set config ''template_folder'' (JStr new_template), True)
                | _ \<Rightarrow> Inl AttributeError)))"

text \<open>
  The body of the \<open>try\<close> of \<open>fix_config_if_needed\<close>, lines 218 to 252: the exception it
  raises or the value it returns, and the state it leaves either way. \<open>config.get\<close> on a
  document that is not a dictionary raises \<open>AttributeError\<close>.
\<close>

definition fix_config_try :: "env \<Rightarrow> path \<Rightarrow> bool \<Rightarrow> state \<Rightarrow> (exn + bool) \<times> state" where
  "fix_config_try e config_path create_backup s =
     (case load_json e config_path s of
        Inl x \<Rightarrow> (Inl x, s)
      | Inr (JObj config) \<Rightarrow>
          let s1 = backup_first e config_path create_backup config s;
              (config1, fixed1) = fix_download_mode config
          in (case fix_template config1 of
                Inl x \<Rightarrow> (Inl x, s1)
              | Inr (config2, fixed2) \<Rightarrow>
                  if fixed1 \<or> fixed2
                  then (case dump_json e config_path (JObj config2) s1 of
                          Inl x \<Rightarrow> (Inl x, s1)
                        | Inr s2 \<Rightarrow> (Inr True, s2))
                  else (Inr False, s1))
      | Inr _ \<Rightarrow> (Inl AttributeError, s))"

text \<open>
  \<open>fix_config_if_needed\<close>, lines 215 to 256: \<open>except Exception\<close> catches every class
  but \<open>KeyboardInterrupt\<close>, warns, and the function returns \<open>False\<close>.
\<close>

definition fix_config_if_needed :: "env \<Rightarrow> path \<Rightarrow> bool \<Rightarrow> state \<Rightarrow> (exn + bool) \<times> state" where
  "fix_config_if_needed e config_path create_backup s =
     (case fix_config_try e config_path create_backup s of
        (Inl x, s') \<Rightarrow>
          if is_Exception x
          then (Inr False, log WARN (''Could not fix config: '' @ str_exn x) s')
          else (Inl x, s')
      | (Inr fixed, s') \<Rightarrow> (Inr fixed, s'))"

section \<open>Process Health Prober and Server Supervisor\<close>

text \<open>
  \<open>is_server_running\<close> scans the processes and \<open>check_server_health\<close> pings the
  server; both swallow every error, so each returns what the environment answers to the
  call of that number.
\<close>

definition is_server_running :: "env \<Rightarrow> state \<Rightarrow> nat option \<times> state" where
  "is_server_running e s = (scan e (scans s), s\<lparr>scans := Suc (scans s)\<rparr>)"

definition check_server_health :: "env \<Rightarrow> state \<Rightarrow> bool \<times> state" where
  "check_server_health e s = (ping e (pings s), s\<lparr>pings := Suc (pings s)\<rparr>)"

definition server_path :: "env \<Rightarrow> path" where
  "server_path e =
     joinpath (joinpath (joinpath (joinpath (root_dir e) ''bgutil-pot-provider'') ''server'')
       ''build'') ''main.js''"

text \<open>
  \<open>start_server\<close>, lines 97 to 109: \<open>Some 0\<close> when the function returns at line 102,
  \<open>None\<close> when it goes on. \<open>if pid\<close> is false for no process and for the process
  number 0. The \<open>try\<close> around \<open>terminate\<close> swallows every error; the model records the
  request.
\<close>

definition check_already_running :: "env \<Rightarrow> state \<Rightarrow> int option \<times> state" where
  "check_already_running e s =
     (case is_server_running e s of
        (None, s1) \<Rightarrow> (None, s1)
      | (Some pid, s1) \<Rightarrow>
          if pid = 0 then (None, s1)
          else
            (case check_server_health e s1 of
               (True, s2) \<Rightarrow>
                 (Some 0,
                  log INFO (''PO token server is already running (PID: '' @ str_nat pid @ '')'') s2)
             | (False, s2) \<Rightarrow>
                 (None,
                  (log WARN ''Found node process but server not responding, restarting...'' s2)
                    \<lparr>terminated := terminated s2 @ [pid]\<rparr>)))"

text \<open>
  \<open>start_server\<close>, lines 111 to 158. \<open>subprocess.Popen\<close> returns the new process or
  raises; \<open>except FileNotFoundError\<close> and \<open>except Exception\<close> turn what they catch into
  the return value 1.
\<close>

definition launch_server :: "env \<Rightarrow> state \<Rightarrow> (exn + int) \<times> state" where
  "launch_server e s =
     (if \<not> exists s (server_path e)
      then
        (Inr 1,
         log INFO ''Run: cd bgutil-pot-provider && npm install && npx tsc''
           (log ERROR (''Server file not found at: '' @ str_path (server_path e)) s))
      else
        let s1 = (log INFO ''Starting PO token server...'' s)\<lparr>spawns := Suc (spawns s)\<rparr>
        in (case spawn e (spawns s) of
              Inr pid \<Rightarrow>
                (case check_server_health e s1 of
                   (True, s2) \<Rightarrow>
                     (Inr 0,
                      log SUCCESS
                        (''PO token server started successfully (PID: '' @ str_nat pid @ '')'') s2)
                 | (False, s2) \<Rightarrow>
                     (Inr 0,
                      log WARN ''Server started but not responding yet, may need a moment...'' s2))
            | Inl x \<Rightarrow>
                if x = FileNotFoundError
                then
                  (Inr 1,
                   log INFO ''Install with: winget install OpenJS.NodeJS''
                     (log ERROR ''Node.js not found. Please install Node.js.'' s1))
                else if is_Exception x
                then (Inr 1, log ERROR (''Failed to start server: '' @ str_exn x) s1)
                else (Inl x, s1)))"

definition start_server :: "env \<Rightarrow> state \<Rightarrow> (exn + int) \<times> state" where
  "start_server e s =
     (case check_already_running e s of
        (Some r, s1) \<Rightarrow> (Inr r, s1)
      | (None, s1) \<Rightarrow> launch_server e s1)"

text \<open>
  Two conditions on what the first scan and the first ping of a call of \<open>start_server\<close>
  answer: a server process is found (\<open>if pid\<close> holds), and it is found and answers the
  ping.
\<close>

definition found_running :: "env \<Rightarrow> state \<Rightarrow> bool" where
  "found_running e s = (case scan e (scans s) of None \<Rightarrow> False | Some pid \<Rightarrow> pid \<noteq> 0)"

definition running_healthy :: "env \<Rightarrow> state \<Rightarrow> bool" where
  "running_healthy e s = (found_running e s \<and> ping e (pings s))"

section \<open>Single-Item Downloader\<close>

text \<open>
  \<open>download_single\<close>, lines 291 to 310: the interpreter and the local variable
  \<open>result\<close> as they stand before the retry loop (\<open>None\<close> while \<open>result\<close> is unbound),
  or the early end of the function: on the left, what it raises (\<open>Inl\<close>) or returns
  (\<open>Inr\<close>).
\<close>

definition resolve_python ::
  "env \<Rightarrow> state \<Rightarrow> ((exn + int) + path \<times> int option) \<times> state" where
  "resolve_python e s =
     (let venv1 = joinpath (joinpath (joinpath (root_dir e) ''env'') ''Scripts'') ''python.exe'';
          venv_python =
            (if \<not> exists s venv1
             then joinpath (joinpath (joinpath (root_dir e) ''env'') ''bin'') ''python''
             else venv1)
      in if exists s venv_python then (Inr (venv_python, None), s)
         else
           let s1 = s\<lparr>import_checks := Suc (import_checks s)\<rparr>
           in (case import_check e (import_checks s) of
                 Inl x \<Rightarrow> (Inl (Inl x), s1)
               | Inr returncode \<Rightarrow>
                   if returncode = 0
                   then
                     (Inr (sys_executable e, Some returncode),
                      log INFO ''Using system Python (container mode)'' s1)
                   else
                     (Inl (Inr 1),
                      log INFO ''Run: python -m venv env''
                        (log ERROR ''Virtual environment not found and gytmdl not installed'' s1))))"

text \<open>
  \<open>download_single\<close>, lines 270 to 310: everything before the retry loop. The result
  is the early end of the function, or the interpreter, the config path and \<open>result\<close>.
\<close>

definition download_prepare ::
  "env \<Rightarrow> string \<Rightarrow> bool \<Rightarrow> state \<Rightarrow> ((exn + int) + path \<times> path \<times> int option) \<times> state" where
  "download_prepare e profile auto_fix s =
     (case start_server e (log INFO ''Checking PO token server...'' s) of
        (Inl x, s1) \<Rightarrow> (Inl (Inl x), s1)
      | (Inr started, s1) \<Rightarrow>
          let config_path = joinpath (joinpath (root_dir e) ''config'') (profile @ ''.json'')
          in if \<not> exists s1 config_path
             then (Inl (Inr 1), log ERROR (''Profile not found: '' @ str_path config_path) s1)
             else
               (case (if auto_fix then fix_config_if_needed e config_path True s1
                      else (Inr False, s1)) of
                  (Inl x, s2) \<Rightarrow> (Inl (Inl x), s2)
                | (Inr fixed, s2) \<Rightarrow>
                    let s3 =
                      (if fixed
                       then log INFO
                              ''Auto-fixed config: removed aria2c mode (using default for better compatibility)''
                              s2
                       else s2)
                    in (case resolve_python e s3 of
                          (Inl r, s4) \<Rightarrow> (Inl r, s4)
                        | (Inr (venv_python, result), s4) \<Rightarrow>
                            (Inr (venv_python, config_path, result), s4))))"

text \<open>
  The retry loop, lines 319 to 333, over the attempts still to make. Each pass runs the
  engine once: the environment gives its exit code, or the exception \<open>subprocess.run\<close>
  raises. After the last pass the function reads \<open>result.returncode\<close>, which raises
  \<open>UnboundLocalError\<close> while \<open>result\<close> is unbound. The pauses of \<open>time.sleep\<close> are not
  modelled.
\<close>

fun retry_loop ::
  "env \<Rightarrow> path \<Rightarrow> path \<Rightarrow> string \<Rightarrow> int \<Rightarrow> int list \<Rightarrow> int option \<Rightarrow> state
     \<Rightarrow> (exn + int) \<times> state" where
  "retry_loop e venv_python config_path url max_retries [] result s =
     (let s1 = log ERROR (''Download failed after '' @ str_int (max_retries + 1) @ '' attempts'') s
      in case result of
           None \<Rightarrow> (Inl UnboundLocalError, s1)
         | Some returncode \<Rightarrow> (Inr returncode, s1))"
| "retry_loop e venv_python config_path url max_retries (attempt # rest) result s =
     (let s1 =
            (if attempt > 0
             then log WARN
                    (''Retry attempt '' @ str_int attempt @ ''/'' @ str_int max_retries @ ''...'') s
             else s);
          s2 = s1\<lparr>engine_runs := engine_runs s1 @ [(venv_python, config_path, url)]\<rparr>
      in case engine e (length (engine_runs s1)) of
           Inl x \<Rightarrow> (Inl x, s2)
         | Inr returncode \<Rightarrow>
             if returncode = 0 then (Inr 0, s2)
             else retry_loop e venv_python config_path url max_retries rest (Some returncode) s2)"

text \<open>\<open>download_single\<close>, lines 258 to 333; \<open>range(max_retries + 1)\<close> is \<open>[0..max_retries]\<close>.\<close>

definition download_single ::
  "env \<Rightarrow> string \<Rightarrow> string \<Rightarrow> bool \<Rightarrow> int \<Rightarrow> state \<Rightarrow> (exn + int) \<times> state" where
  "download_single e url profile auto_fix max_retries s =
     (case download_prepare e profile auto_fix s of
        (Inl r, s1) \<Rightarrow> (r, s1)
      | (Inr (venv_python, config_path, result), s1) \<Rightarrow>
          retry_loop e venv_python config_path url max_retries [0..max_retries] result
            (log INFO (''Downloading: '' @ url) (log SUCCESS (''Using profile: '' @ profile) s1)))"

text \<open>The engine call of the given number exits with a code other than 0.\<close>

definition fails :: "env \<Rightarrow> nat \<Rightarrow> bool" where
  "fails e k = (\<exists>c. engine e k = Inr c \<and> c \<noteq> 0)"

section \<open>Batch Orchestrator\<close>

text \<open>Opening the list file and iterating over its lines\<close>

definition read_lines :: "env \<Rightarrow> path \<Rightarrow> state \<Rightarrow> exn + string list" where
  "read_lines e p s =
     (case files s p of
        None \<Rightarrow> Inl FileNotFoundError
      | Some f \<Rightarrow>
          if read_denied e p then Inl OSError
          else (case lines_of f of None \<Rightarrow> Inl ValueError | Some ls \<Rightarrow> Inr ls))"

text \<open>Lines 358 to 364, \<open>enumerate(f, 1)\<close> being \<open>parse_lines 1\<close>\<close>

fun parse_lines :: "nat \<Rightarrow> string list \<Rightarrow> (nat \<times> string) list" where
  "parse_lines line_num [] = []"
| "parse_lines line_num (line # rest) =
     (let line1 = strip line
      in if line1 = [] \<or> startswith line1 ''#'' then parse_lines (Suc line_num) rest
         else (line_num, line1) # parse_lines (Suc line_num) rest)"

record tally =
  success_count :: nat
  fail_count :: nat
  failed_urls :: "(nat \<times> string) list"

text \<open>
  The loop of lines 379 to 403 over the work items still to process. Every exception
  class but \<open>KeyboardInterrupt\<close> is an \<open>Exception\<close>, so the two handlers cover all that
  \<open>download_single\<close> can raise.
\<close>

fun batch_loop ::
  "env \<Rightarrow> string \<Rightarrow> bool \<Rightarrow> (nat \<times> string) list \<Rightarrow> tally \<Rightarrow> state \<Rightarrow> tally \<times> state" where
  "batch_loop e profile continue_on_error [] t s = (t, s)"
| "batch_loop e profile continue_on_error (item # rest) t s =
     (let line_num = fst item; url = snd item
      in case download_single e url profile True 2 s of
           (Inr result, s1) \<Rightarrow>
             if result = 0
             then batch_loop e profile continue_on_error rest
                    (t\<lparr>success_count := success_count t + 1\<rparr>)
                    (log SUCCESS (''Downloaded: '' @ take 50 url @ ''...'') s1)
             else
               let t1 = t\<lparr>fail_count := fail_count t + 1,
                          failed_urls := failed_urls t @ [(line_num, url)]\<rparr>;
                   s2 = log ERROR (''Failed to download: '' @ take 50 url @ ''...'') s1
               in if \<not> continue_on_error then (t1, s2)
                  else batch_loop e profile continue_on_error rest t1 s2
         | (Inl x, s1) \<Rightarrow>
             if x = KeyboardInterrupt
             then (t, log WARN ''Batch download interrupted by user'' s1)
             else
               let t1 = t\<lparr>fail_count := fail_count t + 1,
                          failed_urls := failed_urls t @ [(line_num, url)]\<rparr>;
                   s2 = log ERROR (''Exception: '' @ str_exn x) s1
               in if \<not> continue_on_error then (t1, s2)
                  else batch_loop e profile continue_on_error rest t1 s2)"

text \<open>
  \<open>download_batch\<close>, lines 336 to 418. \<open>Path(list_file)\<close> is taken from the working
  directory. An error of \<open>start_server\<close> or of reading the file is not caught here.
\<close>

definition download_batch ::
  "env \<Rightarrow> string \<Rightarrow> string \<Rightarrow> bool \<Rightarrow> state \<Rightarrow> (exn + int) \<times> state" where
  "download_batch e list_file profile continue_on_error s =
     (let list_path = joinpath (cwd e) list_file
      in if \<not> exists s list_path
         then (Inr 1, log ERROR (''File not found: '' @ list_file) s)
         else
           (case start_server e (log INFO ''Starting batch download...'' s) of
              (Inl x, s1) \<Rightarrow> (Inl x, s1)
            | (Inr started, s1) \<Rightarrow>
                (case read_lines e list_path s1 of
                   Inl x \<Rightarrow> (Inl x, s1)
                 | Inr lines \<Rightarrow>
                     let urls = parse_lines 1 lines
                     in if urls = []
                        then (Inr 0, log WARN (''No URLs found in '' @ list_file) s1)
                        else
                          (case batch_loop e profile continue_on_error urls
                                  \<lparr>success_count = 0, fail_count = 0, failed_urls = []\<rparr>
                                  (log INFO
                                     (''Found '' @ str_nat (length urls) @ '' URL(s) to download'')
                                     s1) of
                             (t, s2) \<Rightarrow> (Inr (if fail_count t = 0 then 0 else 1), s2)))))"

text \<open>
  What the loop does with one work item, read off the two counters: it counts a
  success, counts a failure, or stops on an interrupt without counting.
\<close>

datatype outcome = Succeeded | Failed | Interrupted

fun classify :: "exn + int \<Rightarrow> outcome" where
  "classify (Inr result) = (if result = 0 then Succeeded else Failed)"
| "classify (Inl x) = (if x = KeyboardInterrupt then Interrupted else Failed)"

text \<open>
  The outcomes of the work items the loop processes, in order, up to the item at which
  it stops.
\<close>

fun batch_outcomes ::
  "env \<Rightarrow> string \<Rightarrow> bool \<Rightarrow> (nat \<times> string) list \<Rightarrow> state \<Rightarrow> outcome list" where
  "batch_outcomes e profile continue_on_error [] s = []"
| "batch_outcomes e profile continue_on_error (item # rest) s =
     (case batch_loop e profile continue_on_error [item]
             \<lparr>success_count = 0, fail_count = 0, failed_urls = []\<rparr> s of
        (t, s1) \<Rightarrow>
          let r = classify (fst (download_single e (snd item) profile True 2 s))
          in r # (if r = Interrupted \<or> (r = Failed \<and> \<not> continue_on_error) then []
                  else batch_outcomes e profile continue_on_error rest s1))"

section \<open>Example installations\<close>

text \<open>
  An installation under \<open>/app\<close> in which the operating system refuses nothing, no server
  process is found, a spawned server does not answer the ping, and the engine succeeds;
  and a state with the given files in which nothing has happened yet.
\<close>

definition example_env :: env where
  "example_env =
     \<lparr>root_dir = [''app''], cwd = [''work''], sys_executable = [''usr'', ''bin'', ''python3''],
      read_denied = (\<lambda>p. False), write_denied = (\<lambda>p. False), mkdir_denied = (\<lambda>p. False),
      json_dump_lines = (\<lambda>v. []), scan = (\<lambda>k. None), ping = (\<lambda>k. False),
      spawn = (\<lambda>k. Inr 4242), import_check = (\<lambda>k. Inr 0), engine = (\<lambda>k. Inr 0)\<rparr>"

definition example_state :: "(path \<Rightarrow> content option) \<Rightarrow> state" where
  "example_state fs =
     \<lparr>files = fs, scans = 0, pings = 0, spawns = 0, import_checks = 0, engine_runs = [],
      terminated = [], out = []\<rparr>"

definition gytmdl_json :: path where
  "gytmdl_json = [''app'', ''config'', ''gytmdl.json'']"

definition with_config :: "json \<Rightarrow> state" where
  "with_config doc = example_state [gytmdl_json \<mapsto> File (Some doc) None]"

text \<open>
  Documents for the repair: a template with a bare placeholder, one with a placeholder
  nested in a bracketed one, and two documents with the legacy download mode.
\<close>

definition bare_doc :: json where
  "bare_doc = JObj [(''template_folder'', JStr ''{album} {date:%Y}'')]"

definition nested_doc :: json where
  "nested_doc = JObj [(''template_folder'', JStr ''[{date:%Y[{date:%Y}]}]'')]"

definition legacy_doc :: json where
  "legacy_doc =
     JObj [(''download_mode'', JStr ''aria2c''), (''template_folder'', JStr ''{album} [{date:%Y}]'')]"

definition legacy_doc2 :: json where
  "legacy_doc2 = JObj [(''download_mode'', JStr ''aria2c''), (''cover_size'', JInt 1200)]"

text \<open>
  Installations in which the config file cannot be written, and in which the backup
  directory cannot be made.
\<close>

definition readonly_env :: env where
  "readonly_env = example_env\<lparr>write_denied := (\<lambda>p. p = gytmdl_json)\<rparr>"

definition no_backup_env :: env where
  "no_backup_env = example_env\<lparr>mkdir_denied := (\<lambda>p. True)\<rparr>"

text \<open>
  Two repairs of the same profile, one after the other: the user has put a second
  document with the legacy mode in place of the repaired one.
\<close>

definition first_repair :: state where
  "first_repair = snd (fix_config_if_needed example_env gytmdl_json True (with_config legacy_doc))"

definition second_repair :: state where
  "second_repair =
     snd (fix_config_if_needed example_env gytmdl_json True
            (first_repair\<lparr>files := (files first_repair)(gytmdl_json \<mapsto> File (Some legacy_doc2) None)\<rparr>))"

text \<open>
  An installation in which the process 7 is found and answers every ping, and the path
  of the server's entry point under \<open>/app\<close>.
\<close>

definition healthy_env :: env where
  "healthy_env = example_env\<lparr>scan := (\<lambda>k. Some 7), ping := (\<lambda>k. True)\<rparr>"

definition main_js :: path where
  "main_js = [''app'', ''bgutil-pot-provider'', ''server'', ''build'', ''main.js'']"

text \<open>
  A profile without defects, the interpreter of a virtual environment, a state holding
  both, and installations whose engine always exits with 1, or with 1 on its first call
  and 0 afterwards.
\<close>

definition clean_doc :: json where
  "clean_doc = JObj [(''cover_size'', JInt 1200)]"

definition venv_interpreter :: path where
  "venv_interpreter = [''app'', ''env'', ''bin'', ''python'']"

definition venv_state :: state where
  "venv_state =
     example_state [gytmdl_json \<mapsto> File (Some clean_doc) None, venv_interpreter \<mapsto> File None None]"

definition failing_env :: env where
  "failing_env = example_env\<lparr>engine := (\<lambda>k. Inr 1)\<rparr>"

definition flaky_env :: env where
  "flaky_env = example_env\<lparr>engine := (\<lambda>k. if k = 0 then Inr 1 else Inr 0)\<rparr>"

section \<open>Batch parsing\<close>

lemma parse_lines_zip:
  "parse_lines n ls =
     map (\<lambda>(i, l). (i, strip l))
       (filter (\<lambda>(i, l). strip l \<noteq> [] \<and> \<not> startswith (strip l) ''#'')
          (zip [n..<n + length ls] ls))"
proof (induction ls arbitrary: n)
  case Nil
  show ?case by simp
next
  case (Cons l ls)
  have z: "zip [n..<n + length (l # ls)] (l # ls) = (n, l) # zip [Suc n..<Suc n + length ls] ls"
  proof -
    have "[n..<n + length (l # ls)] = n # [Suc n..<Suc n + length ls]"
      by (simp add: upt_conv_Cons del: upt_Suc)
    then show ?thesis by simp
  qed
  show ?case
    unfolding z using Cons.IH [of "Suc n"] by (simp add: Let_def)
qed

text \<open>
  C6. The work items are the stripped lines that are neither empty nor start with \<open>#\<close>,
  each with its 1-based number in the file, in file order; the four lines of the
  example, with or without their line ends, give the items \<open>(1, https://a)\<close> and
  \<open>(4, https://b)\<close>.
\<close>

theorem parse_lines_work_items:
  "parse_lines 1 ls =
     map (\<lambda>(i, l). (i, strip l))
       (filter (\<lambda>(i, l). strip l \<noteq> [] \<and> \<not> startswith (strip l) ''#'')
          (zip [1..<Suc (length ls)] ls))
   \<and> parse_lines 1 [''https://a'', [], ''# comment'', ''https://b''] =
       [(1, ''https://a''), (4, ''https://b'')]
   \<and> parse_lines 1
         [''https://a'' @ [CHR 0x0A], [CHR 0x0A], ''# comment'' @ [CHR 0x0A], ''https://b''] =
       [(1, ''https://a''), (4, ''https://b'')]"
proof -
  have a: "parse_lines 1 ls =
     map (\<lambda>(i, l). (i, strip l))
       (filter (\<lambda>(i, l). strip l \<noteq> [] \<and> \<not> startswith (strip l) ''#'')
          (zip [1..<Suc (length ls)] ls))"
    using parse_lines_zip [of 1 ls] by simp
  have b: "parse_lines 1 [''https://a'', [], ''# comment'', ''https://b''] =
       [(1, ''https://a''), (4, ''https://b'')]"
    by (simp add: strip_def is_space_def)
  have c: "parse_lines 1
         [''https://a'' @ [CHR 0x0A], [CHR 0x0A], ''# comment'' @ [CHR 0x0A], ''https://b''] =
       [(1, ''https://a''), (4, ''https://b'')]"
    by (simp add: strip_def is_space_def)
  from a b c show ?thesis by blast
qed

section \<open>Paths of the backup\<close>

lemma split_slash_no_slash: "CHR ''/'' \<notin> set t \<Longrightarrow> split_slash acc t = [rev acc @ t]"
  by (induction t arbitrary: acc) auto

lemma split_slash_nonempty: "split_slash acc s \<noteq> []"
  by (induction s arbitrary: acc) auto

lemma split_slash_last:
  "CHR ''/'' \<notin> set t \<Longrightarrow> \<exists>u. last (split_slash acc (s @ t)) = u @ t"
proof (induction s arbitrary: acc)
  case Nil
  then show ?case by (simp add: split_slash_no_slash)
next
  case (Cons c s)
  then show ?case by (simp add: split_slash_nonempty)
qed

lemma split_slash_elems:
  "x \<in> set (split_slash acc s) \<Longrightarrow> CHR ''/'' \<notin> set acc \<Longrightarrow> CHR ''/'' \<notin> set x"
proof (induction s arbitrary: acc)
  case Nil
  then show ?case by simp
next
  case (Cons c s)
  show ?case
  proof (cases "c = CHR ''/''")
    case True
    with Cons.prems have "x = rev acc \<or> x \<in> set (split_slash [] s)" by simp
    then show ?thesis
    proof
      assume "x = rev acc"
      with Cons.prems show ?thesis by simp
    next
      assume "x \<in> set (split_slash [] s)"
      then show ?thesis using Cons.IH [of "[]"] by simp
    qed
  next
    case False
    with Cons.prems have "x \<in> set (split_slash (c # acc) s)" by simp
    then show ?thesis using Cons.IH [of "c # acc"] False Cons.prems by simp
  qed
qed

lemma components_no_slash: "x \<in> set (components s) \<Longrightarrow> CHR ''/'' \<notin> set x"
  unfolding components_def using split_slash_elems [of x "[]" s] by auto

lemma components_backup_nonempty: "components (st @ ''_backup.json'') \<noteq> []"
proof -
  obtain u where u: "last (split_slash [] (st @ ''_backup.json'')) = u @ ''_backup.json''"
    using split_slash_last [of "''_backup.json''" "[]" st] by auto
  have "last (split_slash [] (st @ ''_backup.json'')) \<in> set (split_slash [] (st @ ''_backup.json''))"
    by (rule last_in_set) (rule split_slash_nonempty)
  with u have "u @ ''_backup.json'' \<in> set (components (st @ ''_backup.json''))"
    unfolding components_def by simp
  then show ?thesis by auto
qed

lemma backup_dir_eq: "backup_dir p = butlast (butlast p) @ [''backups'', ''configs'']"
  by (simp add: backup_dir_def joinpath_def components_def parent_def)

lemma stem_prefix: "\<exists>r. name p = stem p @ r"
proof -
  have "stem p = name p \<or> (\<exists>i. stem p = take i (name p))"
    unfolding stem_def by (auto split: option.splits)
  then show ?thesis
    by (metis append_Nil2 append_take_drop_id)
qed

lemma backup_path_neq: "backup_path p \<noteq> p"
proof (cases "startswith (stem p @ ''_backup.json'') ''/''")
  case False
  then have bp: "backup_path p =
      butlast (butlast p) @ [''backups'', ''configs''] @ components (stem p @ ''_backup.json'')"
    by (simp add: backup_path_def joinpath_def backup_dir_eq)
  have "length (components (stem p @ ''_backup.json'')) \<ge> 1"
    using components_backup_nonempty [of "stem p"]
    by (cases "components (stem p @ ''_backup.json'')") auto
  with bp have "length (backup_path p) > length p" by simp
  then show ?thesis by auto
next
  case True
  then have bp: "backup_path p = components (stem p @ ''_backup.json'')"
    by (simp add: backup_path_def joinpath_def)
  show ?thesis
  proof
    assume eq: "backup_path p = p"
    with bp components_backup_nonempty [of "stem p"] have ne: "p \<noteq> []" by auto
    from True obtain r where st: "stem p = CHR ''/'' # r"
      by (cases "stem p") auto
    obtain q where "name p = stem p @ q" using stem_prefix by blast
    with st ne have "CHR ''/'' \<in> set (last p)" by (simp add: name_def)
    moreover have "last p \<in> set (components (stem p @ ''_backup.json''))"
      using eq bp ne by (metis last_in_set)
    ultimately show False using components_no_slash by blast
  qed
qed

lemma components_single:
  "CHR ''/'' \<notin> set s \<Longrightarrow> s \<noteq> [] \<Longrightarrow> s \<noteq> ''.'' \<Longrightarrow> components s = [s]"
  by (simp add: components_def split_slash_no_slash)

lemma backup_path_plain:
  assumes "CHR ''/'' \<notin> set (stem p)"
  shows "backup_path p = parent (parent p) @ [''backups'', ''configs'', stem p @ ''_backup.json'']"
proof -
  have c: "components (stem p @ ''_backup.json'') = [stem p @ ''_backup.json'']"
    using assms by (intro components_single) auto
  have "\<not> startswith (stem p @ ''_backup.json'') ''/''"
    using assms by (cases "stem p") auto
  then show ?thesis
    by (simp add: backup_path_def joinpath_def backup_dir_eq c parent_def)
qed

section \<open>Config Repair: the errors it catches\<close>

lemma fix_template_raises: "fix_template c = Inl x \<Longrightarrow> x = TypeError \<or> x = AttributeError"
  unfolding fix_template_def
  by (auto split: option.splits sum.splits bool.splits json.splits
        elim!: placeholder_in.elims)

lemma load_json_raises:
  "load_json e p s = Inl x \<Longrightarrow> x = FileNotFoundError \<or> x = OSError \<or> x = ValueError"
  unfolding load_json_def by (auto split: option.splits if_splits)

lemma dump_json_raises: "dump_json e p v s = Inl x \<Longrightarrow> x = OSError"
  unfolding dump_json_def by (auto split: if_splits)

lemma fix_config_try_raises:
  assumes "fix_config_try e p cb s = (Inl x, s')"
  shows "is_Exception x"
proof -
  from assms have "x \<in> {FileNotFoundError, OSError, ValueError, TypeError, AttributeError}"
    unfolding fix_config_try_def Let_def
    by (auto split: sum.splits json.splits prod.splits if_splits
          dest: fix_template_raises load_json_raises dump_json_raises)
  then show ?thesis by (auto simp: is_Exception_def)
qed

lemma fix_config_returns: "\<exists>fixed. fst (fix_config_if_needed e p cb s) = Inr fixed"
proof (cases "fix_config_try e p cb s")
  case (Pair r s')
  show ?thesis
  proof (cases r)
    case (Inl x)
    with Pair have "is_Exception x" by (auto dest: fix_config_try_raises)
    with Pair Inl show ?thesis by (auto simp: fix_config_if_needed_def)
  next
    case (Inr b)
    with Pair show ?thesis by (auto simp: fix_config_if_needed_def)
  qed
qed

lemma fix_config_read_failure:
  assumes "load_json e p s = Inl x"
  shows "fst (fix_config_if_needed e p cb s) = Inr False"
proof -
  from assms have "fix_config_try e p cb s = (Inl x, s)"
    by (simp add: fix_config_try_def)
  moreover from this have "is_Exception x" by (rule fix_config_try_raises)
  ultimately show ?thesis by (simp add: fix_config_if_needed_def)
qed

lemma fix_config_try_write_denied:
  assumes "write_denied e p"
  shows "fst (fix_config_try e p cb s) \<noteq> Inr True"
  using assms unfolding fix_config_try_def Let_def dump_json_def
  by (auto split: sum.splits json.splits prod.splits if_splits)

lemma fix_config_write_failure:
  assumes "write_denied e p"
  shows "fst (fix_config_if_needed e p cb s) = Inr False"
proof -
  obtain b where b: "fst (fix_config_if_needed e p cb s) = Inr b"
    using fix_config_returns by blast
  have "\<not> b"
  proof
    assume "b"
    with b have "fst (fix_config_try e p cb s) = Inr True"
      unfolding fix_config_if_needed_def
      by (auto split: prod.splits sum.splits if_splits)
    with fix_config_try_write_denied [OF assms] show False by blast
  qed
  with b show ?thesis by simp
qed

lemmas repair_defs = fix_config_if_needed_def fix_config_try_def load_json_def dump_json_def
  backup_first_def backup_config_def backup_dir_def backup_path_def copy2_def needs_backup_def
  fix_download_mode_def fix_template_def dict_get_def dict_pop_def log_def is_Exception_def
  Let_def

lemmas path_defs = joinpath_def components_def parent_def name_def stem_def

lemmas example_defs = example_env_def example_state_def gytmdl_json_def with_config_def

text \<open>
  C7. Config Repair never raises: it returns a value for every path and state; and
  when the document cannot be read or parsed, or the config file cannot be written, the
  value is \<open>False\<close>.
\<close>

theorem repair_catches_failures:
  "(\<exists>fixed. fst (fix_config_if_needed e p cb s) = Inr fixed)
   \<and> (\<forall>x. load_json e p s = Inl x \<longrightarrow> fst (fix_config_if_needed e p cb s) = Inr False)
   \<and> (write_denied e p \<longrightarrow> fst (fix_config_if_needed e p cb s) = Inr False)"
  using fix_config_returns [of e p cb s] fix_config_read_failure [of e p s _ cb]
    fix_config_write_failure [of e p cb s]
  by blast

theorem repair_catches_failures_witness:
  "load_json example_env gytmdl_json (example_state Map.empty) = Inl FileNotFoundError
   \<and> fst (fix_config_if_needed example_env gytmdl_json True (example_state Map.empty)) = Inr False
   \<and> load_json example_env gytmdl_json (example_state [gytmdl_json \<mapsto> File None None])
       = Inl ValueError
   \<and> fst (fix_config_if_needed example_env gytmdl_json True
             (example_state [gytmdl_json \<mapsto> File None None])) = Inr False
   \<and> write_denied readonly_env gytmdl_json
   \<and> fst (fix_config_if_needed readonly_env gytmdl_json True (with_config legacy_doc)) = Inr False"
proof -
  have a: "load_json example_env gytmdl_json (example_state Map.empty) = Inl FileNotFoundError"
    by (simp add: load_json_def example_defs)
  have b: "load_json example_env gytmdl_json (example_state [gytmdl_json \<mapsto> File None None])
       = Inl ValueError"
    by (simp add: load_json_def example_defs)
  have c: "write_denied readonly_env gytmdl_json"
    by (simp add: readonly_env_def)
  from a b c
    repair_catches_failures [of example_env gytmdl_json True "example_state Map.empty"]
    repair_catches_failures [of example_env gytmdl_json True
      "example_state [gytmdl_json \<mapsto> File None None]"]
    repair_catches_failures [of readonly_env gytmdl_json True "with_config legacy_doc"]
  show ?thesis by blast
qed

section \<open>Config Repair: the backup\<close>

lemma copy2_keeps_source: "copy2 e p dst s = Inr s' \<Longrightarrow> files s' p = files s p"
  unfolding copy2_def by (auto split: option.splits if_splits)

lemma backup_config_keeps_source: "files (snd (backup_config e p s)) p = files s p"
  unfolding backup_config_def
  by (auto simp: log_def split: sum.splits dest: copy2_keeps_source)

lemma backup_config_copies:
  assumes "files s p \<noteq> None" "\<not> read_denied e p" "\<not> mkdir_denied e (backup_dir p)"
    "\<not> write_denied e (backup_path p)"
  shows "backup_config e p s =
    (Some (backup_path p), s\<lparr>files := (files s)(backup_path p := files s p)\<rparr>)"
  using assms backup_path_neq [of p] unfolding backup_config_def copy2_def
  by (auto split: option.splits)

lemma backup_first_keeps_source: "files (backup_first e p cb config s) p = files s p"
  using backup_config_keeps_source [of e p s] unfolding backup_first_def
  by (auto simp: log_def split: prod.splits option.splits)

lemma backup_first_off: "backup_first e p False config s = s"
  by (simp add: backup_first_def)

lemma fix_config_try_dict:
  "load_json e p s = Inr (JObj config) \<Longrightarrow>
   fix_config_try e p cb s =
     (case fix_template (fst (fix_download_mode config)) of
        Inl x \<Rightarrow> (Inl x, backup_first e p cb config s)
      | Inr (config2, fixed2) \<Rightarrow>
          if snd (fix_download_mode config) \<or> fixed2
          then (case dump_json e p (JObj config2) (backup_first e p cb config s) of
                  Inl x \<Rightarrow> (Inl x, backup_first e p cb config s)
                | Inr s2 \<Rightarrow> (Inr True, s2))
          else (Inr False, backup_first e p cb config s))"
  unfolding fix_config_try_def Let_def
  by (auto split: prod.splits sum.splits)

lemma fix_config_try_not_dict:
  "load_json e p s = Inr v \<Longrightarrow> \<forall>config. v \<noteq> JObj config \<Longrightarrow>
   fix_config_try e p cb s = (Inl AttributeError, s)"
  unfolding fix_config_try_def by (cases v) auto

lemma fix_config_try_backup_irrelevant:
  "fst (fix_config_try e p True s) = fst (fix_config_try e p False s) \<and>
   files (snd (fix_config_try e p True s)) p = files (snd (fix_config_try e p False s)) p"
proof (cases "load_json e p s")
  case (Inl x)
  then show ?thesis by (simp add: fix_config_try_def)
next
  case (Inr v)
  show ?thesis
  proof (cases "\<exists>config. v = JObj config")
    case False
    with Inr show ?thesis by (simp add: fix_config_try_not_dict)
  next
    case True
    then obtain config where v: "v = JObj config" by blast
    have k: "files (backup_first e p True config s) p = files s p"
      by (rule backup_first_keeps_source)
    show ?thesis
      using Inr k unfolding v
      by (auto simp: fix_config_try_dict backup_first_off dump_json_def
            split: sum.splits prod.splits)
  qed
qed

lemma fix_config_backup_irrelevant:
  "fst (fix_config_if_needed e p True s) = fst (fix_config_if_needed e p False s) \<and>
   files (snd (fix_config_if_needed e p True s)) p =
     files (snd (fix_config_if_needed e p False s)) p"
  using fix_config_try_backup_irrelevant [of e p s]
  unfolding fix_config_if_needed_def
  by (cases "fix_config_try e p True s"; cases "fix_config_try e p False s")
     (auto simp: log_def split: sum.splits)

lemma fix_config_backup_holds_original:
  assumes "load_json e p s = Inr (JObj config)" "needs_backup config"
    "\<not> mkdir_denied e (backup_dir p)" "\<not> write_denied e (backup_path p)"
  shows "files (snd (fix_config_if_needed e p True s)) (backup_path p) = files s p"
proof -
  from assms(1) have ex: "files s p \<noteq> None" and rd: "\<not> read_denied e p"
    unfolding load_json_def by (auto split: option.splits if_splits)
  have b: "backup_first e p True config s =
      log INFO (''Config backup created: '' @ name (backup_path p))
        (s\<lparr>files := (files s)(backup_path p := files s p)\<rparr>)"
    using backup_config_copies [OF ex rd assms(3) assms(4)] assms(2)
    by (simp add: backup_first_def)
  have "files (snd (fix_config_try e p True s)) (backup_path p) = files s p"
    using backup_path_neq [of p]
    by (auto simp: fix_config_try_dict [OF assms(1)] b log_def dump_json_def
          split: sum.splits prod.splits)
  then show ?thesis
    unfolding fix_config_if_needed_def
    by (cases "fix_config_try e p True s") (auto simp: log_def split: sum.splits)
qed

text \<open>
  C5, as amended. When the document has one of the two defects and the backup can be
  made, the file at the backup path holds after the repair what the config file held
  before it. The backup path is a function of the config path alone: for a stem without
  a slash it is \<open>backups/configs/<stem>_backup.json\<close> beside the config directory, with no
  timestamp in it. With or without the backup, and whether or not it succeeds, the
  repair returns the same value and leaves the same document.
\<close>

theorem repair_backup:
  "(load_json e p s = Inr (JObj config) \<and> needs_backup config
      \<and> \<not> mkdir_denied e (backup_dir p) \<and> \<not> write_denied e (backup_path p)
     \<longrightarrow> files (snd (fix_config_if_needed e p True s)) (backup_path p) = files s p)
   \<and> (CHR ''/'' \<notin> set (stem p)
     \<longrightarrow> backup_path p = parent (parent p) @ [''backups'', ''configs'', stem p @ ''_backup.json''])
   \<and> fst (fix_config_if_needed e p True s) = fst (fix_config_if_needed e p False s)
   \<and> files (snd (fix_config_if_needed e p True s)) p
       = files (snd (fix_config_if_needed e p False s)) p"
  using fix_config_backup_holds_original [of e p s config] backup_path_plain [of p]
    fix_config_backup_irrelevant [of e p s]
  by blast

theorem repair_backup_witness:
  "load_json example_env gytmdl_json (with_config legacy_doc)
     = Inr (JObj [(''download_mode'', JStr ''aria2c''),
                  (''template_folder'', JStr ''{album} [{date:%Y}]'')])
   \<and> needs_backup [(''download_mode'', JStr ''aria2c''),
                     (''template_folder'', JStr ''{album} [{date:%Y}]'')]
   \<and> \<not> mkdir_denied example_env (backup_dir gytmdl_json)
   \<and> \<not> write_denied example_env (backup_path gytmdl_json)
   \<and> CHR ''/'' \<notin> set (stem gytmdl_json)
   \<and> backup_path gytmdl_json = [''app'', ''backups'', ''configs'', ''gytmdl_backup.json'']
   \<and> files (snd (fix_config_if_needed example_env gytmdl_json True (with_config legacy_doc)))
         [''app'', ''backups'', ''configs'', ''gytmdl_backup.json'']
       = Some (File (Some legacy_doc) None)
   \<and> files (snd (fix_config_if_needed example_env gytmdl_json True (with_config legacy_doc)))
         gytmdl_json
       = Some (File (Some (JObj [(''template_folder'', JStr ''{album}'')])) (Some []))
   \<and> fst (fix_config_if_needed no_backup_env gytmdl_json True (with_config legacy_doc)) = Inr True
   \<and> fst (fix_config_if_needed no_backup_env gytmdl_json False (with_config legacy_doc)) = Inr True"
proof -
  have a: "load_json example_env gytmdl_json (with_config legacy_doc)
     = Inr (JObj [(''download_mode'', JStr ''aria2c''),
                  (''template_folder'', JStr ''{album} [{date:%Y}]'')])"
    by (simp add: load_json_def example_defs legacy_doc_def)
  have b: "needs_backup [(''download_mode'', JStr ''aria2c''),
                     (''template_folder'', JStr ''{album} [{date:%Y}]'')]"
    by (simp add: needs_backup_def dict_get_def)
  have c: "\<not> mkdir_denied example_env (backup_dir gytmdl_json)"
    "\<not> write_denied example_env (backup_path gytmdl_json)"
    by (simp_all add: example_env_def)
  have d: "CHR ''/'' \<notin> set (stem gytmdl_json)"
    by (simp add: gytmdl_json_def stem_def name_def)
  have e: "parent (parent gytmdl_json) @ [''backups'', ''configs'', stem gytmdl_json @ ''_backup.json'']
      = [''app'', ''backups'', ''configs'', ''gytmdl_backup.json'']"
    by (simp add: gytmdl_json_def stem_def name_def parent_def)
  have f: "files (with_config legacy_doc) gytmdl_json = Some (File (Some legacy_doc) None)"
    by (simp add: example_defs)
  have g: "files (snd (fix_config_if_needed example_env gytmdl_json False (with_config legacy_doc)))
         gytmdl_json
       = Some (File (Some (JObj [(''template_folder'', JStr ''{album}'')])) (Some []))"
    by (simp add: example_defs legacy_doc_def repair_defs)
  have h: "fst (fix_config_if_needed no_backup_env gytmdl_json False (with_config legacy_doc))
      = Inr True"
    by (simp add: no_backup_env_def example_defs legacy_doc_def repair_defs)
  from a b c d e f g h
    repair_backup [of example_env gytmdl_json "with_config legacy_doc"
      "[(''download_mode'', JStr ''aria2c''), (''template_folder'', JStr ''{album} [{date:%Y}]'')]"]
    repair_backup [of no_backup_env gytmdl_json "with_config legacy_doc"]
  show ?thesis by simp
qed

text \<open>
  The name of the backup carries no timestamp: two repairs of the same profile write to
  the same file \<open>gytmdl_backup.json\<close>, and the second backup replaces the first.
\<close>

theorem repair_backup_not_timestamped:
  "fst (backup_config example_env gytmdl_json (with_config legacy_doc))
     = Some [''app'', ''backups'', ''configs'', ''gytmdl_backup.json'']
   \<and> fst (backup_config example_env gytmdl_json (with_config legacy_doc2))
     = Some [''app'', ''backups'', ''configs'', ''gytmdl_backup.json'']
   \<and> files first_repair [''app'', ''backups'', ''configs'', ''gytmdl_backup.json'']
     = Some (File (Some legacy_doc) None)
   \<and> files second_repair [''app'', ''backups'', ''configs'', ''gytmdl_backup.json'']
     = Some (File (Some legacy_doc2) None)
   \<and> legacy_doc \<noteq> legacy_doc2"
  by (simp add: first_repair_def second_repair_def example_defs legacy_doc_def legacy_doc2_def
        repair_defs path_defs)

section \<open>Config Repair: the placeholder it leaves\<close>

text \<open>
  C1, at the failing input. The template \<open>{album} {date:%Y}\<close> holds the placeholder
  without brackets: the repair returns \<open>True\<close> and writes the document back as it was,
  placeholder included. On \<open>[{date:%Y[{date:%Y}]}]\<close> the one pass of \<open>replace\<close> leaves
  \<open>[{date:%Y}]\<close>.
\<close>

theorem repair_leaves_bare_placeholder:
  "fst (fix_config_if_needed example_env gytmdl_json True (with_config bare_doc)) = Inr True
   \<and> files (snd (fix_config_if_needed example_env gytmdl_json True (with_config bare_doc)))
         gytmdl_json
       = Some (File (Some (JObj [(''template_folder'', JStr ''{album} {date:%Y}'')])) (Some []))
   \<and> str_contains ''{album} {date:%Y}'' ''{date:%Y}''
   \<and> files (snd (fix_config_if_needed example_env gytmdl_json True (with_config nested_doc)))
         gytmdl_json
       = Some (File (Some (JObj [(''template_folder'', JStr ''[{date:%Y}]'')])) (Some []))"
  by (simp add: example_defs bare_doc_def nested_doc_def repair_defs path_defs)

text \<open>
  C2, at the failing input. On the document with the bare placeholder the second repair
  finds the placeholder again and returns \<open>True\<close>; on the nested one the second repair
  changes the document the first one left.
\<close>

theorem repair_twice_reports_fix:
  "fst (fix_config_if_needed example_env gytmdl_json True
          (snd (fix_config_if_needed example_env gytmdl_json True (with_config bare_doc))))
     = Inr True
   \<and> files (snd (fix_config_if_needed example_env gytmdl_json True (with_config nested_doc)))
         gytmdl_json
       = Some (File (Some (JObj [(''template_folder'', JStr ''[{date:%Y}]'')])) (Some []))
   \<and> files (snd (fix_config_if_needed example_env gytmdl_json True
                 (snd (fix_config_if_needed example_env gytmdl_json True (with_config nested_doc)))))
         gytmdl_json
       = Some (File (Some (JObj [(''template_folder'', JStr [])])) (Some []))"
  by (simp add: example_defs bare_doc_def nested_doc_def repair_defs path_defs)

section \<open>Server Supervisor: what it returns\<close>

lemmas server_defs = start_server_def check_already_running_def launch_server_def
  is_server_running_def check_server_health_def server_path_def exists_def log_def
  is_Exception_def Let_def

lemma check_already_running_healthy:
  "running_healthy e s \<Longrightarrow> fst (check_already_running e s) = Some 0"
  unfolding running_healthy_def found_running_def check_already_running_def
    is_server_running_def check_server_health_def
  by (auto split: option.splits)

lemma check_already_running_goes_on:
  "\<not> running_healthy e s \<Longrightarrow>
   check_already_running e s =
     (None,
      if found_running e s
      then (log WARN ''Found node process but server not responding, restarting...''
              (s\<lparr>scans := Suc (scans s), pings := Suc (pings s)\<rparr>))
             \<lparr>terminated := terminated s @ [the (scan e (scans s))]\<rparr>
      else s\<lparr>scans := Suc (scans s)\<rparr>)"
  unfolding running_healthy_def found_running_def check_already_running_def
    is_server_running_def check_server_health_def
  by (auto split: option.splits simp: log_def)

lemma start_server_healthy:
  "running_healthy e s \<Longrightarrow> fst (start_server e s) = Inr 0"
  using check_already_running_healthy [of e s] unfolding start_server_def
  by (cases "check_already_running e s") auto

lemma start_server_missing:
  assumes "\<not> running_healthy e s" "\<not> exists s (server_path e)"
  shows "fst (start_server e s) = Inr 1 \<and>
    last (out (snd (start_server e s)))
      = (INFO, ''Run: cd bgutil-pot-provider && npm install && npx tsc'')"
  using assms
  by (simp add: start_server_def check_already_running_goes_on launch_server_def exists_def
        log_def)

lemma start_server_slow:
  assumes "\<not> running_healthy e s" "exists s (server_path e)" "spawn e (spawns s) = Inr pid"
    "\<not> ping e (if found_running e s then Suc (pings s) else pings s)"
  shows "fst (start_server e s) = Inr 0 \<and>
    last (out (snd (start_server e s))) =
      (WARN, ''Server started but not responding yet, may need a moment...'')"
  using assms
  by (cases "found_running e s")
     (simp_all add: start_server_def check_already_running_goes_on launch_server_def exists_def
        log_def check_server_health_def Let_def)

text \<open>
  C8, as amended. When a running server is found and answers the ping, \<open>start_server\<close>
  returns 0 and never looks at the entry point. Otherwise, when the entry point is
  missing it returns 1 and its last line is the build guidance; and when the entry point
  is there, the spawn succeeds and the ping after it fails, it returns 0 and its last
  line is the warning that the server may need a moment. (The ping after the spawn is the
  second one of the call when a process had been found, the first one otherwise.)
\<close>

theorem start_server_outcomes:
  "(running_healthy e s \<longrightarrow> fst (start_server e s) = Inr 0)
   \<and> (\<not> running_healthy e s \<and> \<not> exists s (server_path e)
     \<longrightarrow> fst (start_server e s) = Inr 1
         \<and> last (out (snd (start_server e s)))
             = (INFO, ''Run: cd bgutil-pot-provider && npm install && npx tsc''))
   \<and> (\<not> running_healthy e s \<and> exists s (server_path e) \<and> spawn e (spawns s) = Inr pid
       \<and> \<not> ping e (if found_running e s then Suc (pings s) else pings s)
     \<longrightarrow> fst (start_server e s) = Inr 0
         \<and> last (out (snd (start_server e s)))
             = (WARN, ''Server started but not responding yet, may need a moment...''))"
  using start_server_healthy [of e s] start_server_missing [of e s]
    start_server_slow [of e s pid]
  by blast

theorem start_server_outcomes_witness:
  "running_healthy healthy_env (example_state Map.empty)
   \<and> fst (start_server healthy_env (example_state Map.empty)) = Inr 0
   \<and> \<not> running_healthy example_env (example_state Map.empty)
   \<and> \<not> exists (example_state Map.empty) (server_path example_env)
   \<and> fst (start_server example_env (example_state Map.empty)) = Inr 1
   \<and> last (out (snd (start_server example_env (example_state Map.empty))))
       = (INFO, ''Run: cd bgutil-pot-provider && npm install && npx tsc'')
   \<and> \<not> running_healthy example_env (example_state [main_js \<mapsto> File None None])
   \<and> exists (example_state [main_js \<mapsto> File None None]) (server_path example_env)
   \<and> spawn example_env (spawns (example_state [main_js \<mapsto> File None None])) = Inr 4242
   \<and> \<not> ping example_env
         (if found_running example_env (example_state [main_js \<mapsto> File None None])
          then Suc (pings (example_state [main_js \<mapsto> File None None]))
          else pings (example_state [main_js \<mapsto> File None None]))
   \<and> fst (start_server example_env (example_state [main_js \<mapsto> File None None])) = Inr 0
   \<and> last (out (snd (start_server example_env (example_state [main_js \<mapsto> File None None]))))
       = (WARN, ''Server started but not responding yet, may need a moment...'')"
proof -
  have a: "running_healthy healthy_env (example_state Map.empty)"
    by (simp add: running_healthy_def found_running_def healthy_env_def example_env_def
          example_state_def)
  have b: "\<not> running_healthy example_env (example_state Map.empty)"
    "\<not> running_healthy example_env (example_state [main_js \<mapsto> File None None])"
    by (simp_all add: running_healthy_def found_running_def example_env_def example_state_def)
  have c: "\<not> exists (example_state Map.empty) (server_path example_env)"
    "exists (example_state [main_js \<mapsto> File None None]) (server_path example_env)"
    by (simp_all add: exists_def server_path_def example_env_def example_state_def main_js_def
          path_defs)
  have d: "spawn example_env (spawns (example_state [main_js \<mapsto> File None None])) = Inr 4242"
    "\<not> ping example_env
         (if found_running example_env (example_state [main_js \<mapsto> File None None])
          then Suc (pings (example_state [main_js \<mapsto> File None None]))
          else pings (example_state [main_js \<mapsto> File None None]))"
    by (simp_all add: example_env_def)
  from a b c d
    start_server_outcomes [of healthy_env "example_state Map.empty"]
    start_server_outcomes [of example_env "example_state Map.empty"]
    start_server_outcomes [of example_env "example_state [main_js \<mapsto> File None None]" 4242]
  show ?thesis by blast
qed

text \<open>
  The entry point is missing and \<open>start_server\<close> returns 0: the process found answers
  the ping, and the function returns at line 102, before the check of line 112.
\<close>

theorem start_server_healthy_without_entry_point:
  "\<not> exists (example_state Map.empty) (server_path healthy_env)
   \<and> fst (start_server healthy_env (example_state Map.empty)) = Inr 0"
  by (simp add: healthy_env_def example_env_def example_state_def server_defs path_defs)

section \<open>Single-Item Downloader: the retry loop\<close>

lemma engine_runs_log [simp]: "engine_runs (log l m s) = engine_runs s"
  by (simp add: log_def)

lemma files_log [simp]: "files (log l m s) = files s"
  by (simp add: log_def)

lemma start_server_engine_runs: "engine_runs (snd (start_server e s)) = engine_runs s"
  unfolding start_server_def check_already_running_def launch_server_def
    is_server_running_def check_server_health_def Let_def
  by (auto split: option.splits sum.splits bool.splits)

lemma start_server_files: "files (snd (start_server e s)) = files s"
  unfolding start_server_def check_already_running_def launch_server_def
    is_server_running_def check_server_health_def Let_def
  by (auto split: option.splits sum.splits bool.splits)

lemma backup_first_engine_runs: "engine_runs (backup_first e p cb config s) = engine_runs s"
  unfolding backup_first_def backup_config_def copy2_def
  by (auto split: option.splits sum.splits prod.splits)

lemma fix_config_try_engine_runs: "engine_runs (snd (fix_config_try e p cb s)) = engine_runs s"
  unfolding fix_config_try_def dump_json_def Let_def
  by (auto simp: backup_first_engine_runs split: sum.splits json.splits prod.splits)

lemma fix_config_engine_runs:
  "engine_runs (snd (fix_config_if_needed e p cb s)) = engine_runs s"
  using fix_config_try_engine_runs [of e p cb s] unfolding fix_config_if_needed_def
  by (cases "fix_config_try e p cb s") (auto split: sum.splits)

lemma resolve_python_engine_runs: "engine_runs (snd (resolve_python e s)) = engine_runs s"
  unfolding resolve_python_def Let_def
  by (auto split: sum.splits)

lemma download_prepare_engine_runs:
  "engine_runs (snd (download_prepare e profile auto_fix s)) = engine_runs s"
  unfolding download_prepare_def Let_def case_prod_beta
  by (auto simp: start_server_engine_runs fix_config_engine_runs resolve_python_engine_runs
        split: sum.splits)

lemma retry_loop_all_fail:
  assumes "\<forall>j<length as. fails e (length (engine_runs s) + j)"
  shows "engine_runs (snd (retry_loop e py cfg url m as r s))
           = engine_runs s @ replicate (length as) (py, cfg, url)
       \<and> fst (retry_loop e py cfg url m as r s)
           = (if as = [] then (case r of None \<Rightarrow> Inl UnboundLocalError | Some c \<Rightarrow> Inr c)
              else engine e (length (engine_runs s) + length as - 1))"
  using assms
proof (induction as arbitrary: r s)
  case Nil
  show ?case by (simp add: Let_def split: option.splits)
next
  case (Cons a as)
  define s1 where "s1 = (if a > 0
      then log WARN (''Retry attempt '' @ str_int a @ ''/'' @ str_int m @ ''...'') s else s)"
  define s2 where "s2 = s1\<lparr>engine_runs := engine_runs s @ [(py, cfg, url)]\<rparr>"
  have n1: "engine_runs s1 = engine_runs s" by (simp add: s1_def)
  have n2: "engine_runs s2 = engine_runs s @ [(py, cfg, url)]" by (simp add: s2_def)
  from Cons.prems have "fails e (length (engine_runs s) + 0)" by blast
  then obtain c where c: "engine e (length (engine_runs s)) = Inr c" "c \<noteq> 0"
    by (auto simp: fails_def)
  have step: "retry_loop e py cfg url m (a # as) r s = retry_loop e py cfg url m as (Some c) s2"
    using c by (simp add: Let_def s1_def [symmetric] s2_def [symmetric] n1)
  have "\<forall>j<length as. fails e (length (engine_runs s2) + j)"
  proof (intro allI impI)
    fix j assume "j < length as"
    then have "fails e (length (engine_runs s) + Suc j)" using Cons.prems by auto
    then show "fails e (length (engine_runs s2) + j)" by (simp add: n2)
  qed
  from Cons.IH [OF this, of "Some c"] show ?case
    unfolding step using c by (auto simp: n2 replicate_append_same)
qed

lemma retry_loop_first_zero:
  assumes "k < length as" "\<forall>j<k. fails e (length (engine_runs s) + j)"
    "engine e (length (engine_runs s) + k) = Inr 0"
  shows "fst (retry_loop e py cfg url m as r s) = Inr 0
       \<and> engine_runs (snd (retry_loop e py cfg url m as r s))
           = engine_runs s @ replicate (Suc k) (py, cfg, url)"
  using assms
proof (induction as arbitrary: k r s)
  case Nil
  then show ?case by simp
next
  case (Cons a as)
  define s1 where "s1 = (if a > 0
      then log WARN (''Retry attempt '' @ str_int a @ ''/'' @ str_int m @ ''...'') s else s)"
  define s2 where "s2 = s1\<lparr>engine_runs := engine_runs s @ [(py, cfg, url)]\<rparr>"
  have n1: "engine_runs s1 = engine_runs s" by (simp add: s1_def)
  have n2: "engine_runs s2 = engine_runs s @ [(py, cfg, url)]" by (simp add: s2_def)
  show ?case
  proof (cases k)
    case 0
    with Cons.prems have "engine e (length (engine_runs s)) = Inr 0" by simp
    then show ?thesis
      using 0 by (simp add: Let_def s1_def [symmetric] s2_def [symmetric] n1 n2)
  next
    case (Suc k')
    with Cons.prems have "fails e (length (engine_runs s) + 0)" by blast
    then obtain c where c: "engine e (length (engine_runs s)) = Inr c" "c \<noteq> 0"
      by (auto simp: fails_def)
    have step: "retry_loop e py cfg url m (a # as) r s = retry_loop e py cfg url m as (Some c) s2"
      using c by (simp add: Let_def s1_def [symmetric] s2_def [symmetric] n1)
    have a1: "k' < length as" using Cons.prems Suc by simp
    have a2: "\<forall>j<k'. fails e (length (engine_runs s2) + j)"
    proof (intro allI impI)
      fix j assume "j < k'"
      then have "fails e (length (engine_runs s) + Suc j)" using Cons.prems Suc by auto
      then show "fails e (length (engine_runs s2) + j)" by (simp add: n2)
    qed
    have a3: "engine e (length (engine_runs s2) + k') = Inr 0"
      using Cons.prems Suc by (simp add: n2)
    from Cons.IH [OF a1 a2 a3, of "Some c"] show ?thesis
      unfolding step using Suc by (simp add: n2 replicate_append_same)
  qed
qed

lemma retry_loop_bound:
  "length (engine_runs (snd (retry_loop e py cfg url m as r s)))
     \<le> length (engine_runs s) + length as"
proof (induction as arbitrary: r s)
  case Nil
  show ?case by (simp add: Let_def split: option.splits)
next
  case (Cons a as)
  define s1 where "s1 = (if a > 0
      then log WARN (''Retry attempt '' @ str_int a @ ''/'' @ str_int m @ ''...'') s else s)"
  define s2 where "s2 = s1\<lparr>engine_runs := engine_runs s @ [(py, cfg, url)]\<rparr>"
  have n1: "engine_runs s1 = engine_runs s" by (simp add: s1_def)
  have n2: "engine_runs s2 = engine_runs s @ [(py, cfg, url)]" by (simp add: s2_def)
  show ?case
  proof (cases "engine e (length (engine_runs s))")
    case (Inl x)
    then show ?thesis
      by (simp add: Let_def s1_def [symmetric] s2_def [symmetric] n1 n2)
  next
    case (Inr c)
    show ?thesis
    proof (cases "c = 0")
      case True
      with Inr show ?thesis
        by (simp add: Let_def s1_def [symmetric] s2_def [symmetric] n1 n2)
    next
      case False
      with Inr have step:
        "retry_loop e py cfg url m (a # as) r s = retry_loop e py cfg url m as (Some c) s2"
        by (simp add: Let_def s1_def [symmetric] s2_def [symmetric] n1)
      from Cons.IH [of "Some c" s2] show ?thesis unfolding step by (simp add: n2)
    qed
  qed
qed

lemma length_range: "length [0..m] = nat (m + 1)"
  by simp

lemma download_single_loop:
  assumes "fst (download_prepare e profile auto_fix s) = Inr (py, cfg, r0)"
  shows "\<exists>s1. engine_runs s1 = engine_runs s \<and>
     download_single e url profile auto_fix m s = retry_loop e py cfg url m [0..m] r0 s1"
proof -
  obtain s0 where p: "download_prepare e profile auto_fix s = (Inr (py, cfg, r0), s0)"
    using assms by (cases "download_prepare e profile auto_fix s") auto
  have "engine_runs s0 = engine_runs s"
    using download_prepare_engine_runs [of e profile auto_fix s] p by simp
  then show ?thesis
    unfolding download_single_def p by (intro exI [of _ "log INFO (''Downloading: '' @ url)
      (log SUCCESS (''Using profile: '' @ profile) s0)"]) simp
qed

lemma download_single_early:
  assumes "fst (download_prepare e profile auto_fix s) = Inl r"
  shows "fst (download_single e url profile auto_fix m s) = r
     \<and> engine_runs (snd (download_single e url profile auto_fix m s)) = engine_runs s"
  using assms download_prepare_engine_runs [of e profile auto_fix s]
  unfolding download_single_def
  by (cases "download_prepare e profile auto_fix s") auto

text \<open>
  C3. Let \<open>download_single\<close> reach its retry loop (the profile exists and an interpreter
  is found). With \<open>max_retries = 2\<close> and an engine that exits non-zero on each of its three
  calls, the engine is called exactly three times and the value returned is the exit code
  of the third call. When the first call exits non-zero and the second with 0, the engine
  is called exactly twice and 0 is returned. For every \<open>max_retries\<close>: the function
  returns 0 at the first call that exits with 0, having made no call after it, and it
  never calls the engine more than \<open>max_retries + 1\<close> times.
\<close>

theorem download_single_retries:
  assumes "fst (download_prepare e profile auto_fix s) = Inr (py, cfg, r0)"
  shows
    "((\<forall>j<3. fails e (length (engine_runs s) + j))
       \<longrightarrow> fst (download_single e url profile auto_fix 2 s) = engine e (length (engine_runs s) + 2)
         \<and> engine_runs (snd (download_single e url profile auto_fix 2 s))
             = engine_runs s @ replicate 3 (py, cfg, url))
     \<and> (fails e (length (engine_runs s)) \<and> engine e (length (engine_runs s) + 1) = Inr 0
       \<longrightarrow> fst (download_single e url profile auto_fix 2 s) = Inr 0
         \<and> engine_runs (snd (download_single e url profile auto_fix 2 s))
             = engine_runs s @ replicate 2 (py, cfg, url))
     \<and> (\<forall>m k. int k \<le> m \<and> (\<forall>j<k. fails e (length (engine_runs s) + j))
               \<and> engine e (length (engine_runs s) + k) = Inr 0
       \<longrightarrow> fst (download_single e url profile auto_fix m s) = Inr 0
         \<and> engine_runs (snd (download_single e url profile auto_fix m s))
             = engine_runs s @ replicate (Suc k) (py, cfg, url))
     \<and> (\<forall>m. length (engine_runs (snd (download_single e url profile auto_fix m s)))
              \<le> length (engine_runs s) + nat (m + 1))"
proof (intro conjI allI impI)
  assume a: "\<forall>j<3. fails e (length (engine_runs s) + j)"
  obtain s1 where s1: "engine_runs s1 = engine_runs s"
    "download_single e url profile auto_fix 2 s = retry_loop e py cfg url 2 [0..2] r0 s1"
    using download_single_loop [OF assms] by blast
  have len: "length [0..2::int] = 3" by simp
  have ne: "[0..2::int] \<noteq> []" using len by auto
  from a have "\<forall>j<length [0..2::int]. fails e (length (engine_runs s1) + j)"
    by (simp only: len s1)
  from retry_loop_all_fail [OF this, of py cfg url 2 r0]
  show "fst (download_single e url profile auto_fix 2 s) = engine e (length (engine_runs s) + 2)"
    and "engine_runs (snd (download_single e url profile auto_fix 2 s))
             = engine_runs s @ replicate 3 (py, cfg, url)"
    unfolding s1 len using ne by simp_all
next
  assume a: "fails e (length (engine_runs s)) \<and> engine e (length (engine_runs s) + 1) = Inr 0"
  obtain s1 where s1: "engine_runs s1 = engine_runs s"
    "download_single e url profile auto_fix 2 s = retry_loop e py cfg url 2 [0..2] r0 s1"
    using download_single_loop [OF assms] by blast
  have len: "length [0..2::int] = 3" by simp
  have "fst (retry_loop e py cfg url 2 [0..2] r0 s1) = Inr 0
       \<and> engine_runs (snd (retry_loop e py cfg url 2 [0..2] r0 s1))
           = engine_runs s1 @ replicate (Suc 1) (py, cfg, url)"
    by (rule retry_loop_first_zero) (use a s1 len in \<open>auto simp: less_Suc_eq\<close>)
  then show "fst (download_single e url profile auto_fix 2 s) = Inr 0"
    and "engine_runs (snd (download_single e url profile auto_fix 2 s))
             = engine_runs s @ replicate 2 (py, cfg, url)"
    unfolding s1 by (simp_all add: numeral_2_eq_2)
next
  fix m :: int and k :: nat
  assume a: "int k \<le> m \<and> (\<forall>j<k. fails e (length (engine_runs s) + j))
               \<and> engine e (length (engine_runs s) + k) = Inr 0"
  obtain s1 where s1: "engine_runs s1 = engine_runs s"
    "download_single e url profile auto_fix m s = retry_loop e py cfg url m [0..m] r0 s1"
    using download_single_loop [OF assms] by blast
  from a have "int k \<le> m" by blast
  then have "k < nat (m + 1)" by linarith
  then have "k < length [0..m]" by simp
  then have "fst (retry_loop e py cfg url m [0..m] r0 s1) = Inr 0
       \<and> engine_runs (snd (retry_loop e py cfg url m [0..m] r0 s1))
           = engine_runs s1 @ replicate (Suc k) (py, cfg, url)"
    by (rule retry_loop_first_zero) (use a s1 in auto)
  then show "fst (download_single e url profile auto_fix m s) = Inr 0"
    and "engine_runs (snd (download_single e url profile auto_fix m s))
             = engine_runs s @ replicate (Suc k) (py, cfg, url)"
    unfolding s1 by simp_all
next
  fix m :: int
  obtain s1 where s1: "engine_runs s1 = engine_runs s"
    "download_single e url profile auto_fix m s = retry_loop e py cfg url m [0..m] r0 s1"
    using download_single_loop [OF assms] by blast
  show "length (engine_runs (snd (download_single e url profile auto_fix m s)))
              \<le> length (engine_runs s) + nat (m + 1)"
    unfolding s1(2) using retry_loop_bound [of e py cfg url m "[0..m]" r0 s1] s1(1) by simp
qed

end
